theory Spec2Isabelle
  imports
    Complex_Main
    "HOL-Library.Sublist"
    "HOL-Library.Multiset"
    "HOL-Library.Char_ord"
    "HOL-Library.List_Lexorder"
begin

section \<open>The data model of csv2api\<close>

text \<open>
  csv2api loads a CSV file into an array of row objects (\<open>csvLoader.js\<close>) and answers
  queries over that array with the pure functions of \<open>queryUtils.js\<close>: \<open>searchCsv\<close>,
  \<open>paginateCsv\<close>, \<open>getRowById\<close>, \<open>sortCsv\<close>, \<open>getColumnStats\<close>.

  A row is a JavaScript object whose own properties are the columns. The CSV parser
  produces string cells; a cell can also be \<open>null\<close>, and a key can be absent
  (\<open>row[column]\<close> is then \<open>undefined\<close>). A row is modelled as the list of its
  properties in \<open>Object.keys\<close> order, a cell as a string or \<open>null\<close>, and
  \<open>row[column]\<close> as a lookup that yields \<open>None\<close> for \<open>undefined\<close>.
  Strings are lists of HOL's 8-bit characters, read as the code units 0 to 255.
  The array argument of every function is a list: the guards \<open>!data\<close> of the source,
  which return a \<open>null\<close> or \<open>undefined\<close> argument as it is, have no counterpart.
\<close>

datatype cell = CNull | CStr string

type_synonym row = "(string \<times> cell) list"

definition get_prop :: "row \<Rightarrow> string \<Rightarrow> cell option" where
  \<comment> \<open>\<open>row[column]\<close>\<close>
  "get_prop r column = map_of r column"

definition object_keys :: "row \<Rightarrow> string list" where
  \<comment> \<open>\<open>Object.keys(row)\<close>\<close>
  "object_keys r = map fst r"

definition object_values :: "row \<Rightarrow> cell list" where
  \<comment> \<open>\<open>Object.values(row)\<close>\<close>
  "object_values r = map snd r"

definition nullish :: "cell option \<Rightarrow> bool" where
  \<comment> \<open>\<open>v === null || v === undefined\<close>\<close>
  "nullish v = (v = None \<or> v = Some CNull)"

text \<open>
  Scalar arguments (\<open>page\<close>, \<open>limit\<close>, \<open>id\<close>) are JavaScript values of any type.
  The model has \<open>undefined\<close>, \<open>null\<close>, strings and integral numbers; \<open>JNum n\<close> stands
  for the number \<open>n\<close>, and arithmetic on numbers is exact (the rounding of IEEE doubles
  beyond \<open>2^53\<close> is not modelled).
\<close>

datatype jsval = JUndefined | JNull | JNum int | JStr string

section \<open>The built-in functions the queries call\<close>

subsection \<open>White space, digits, letter case\<close>

definition is_ws :: "char \<Rightarrow> bool" where
  \<comment> \<open>the white space and line terminators of ECMAScript among the code units below 256:
      TAB, LF, VT, FF, CR, SPACE, NBSP\<close>
  "is_ws c = ((of_char c :: nat) \<in> {9, 10, 11, 12, 13, 32, 160})"

definition trim_start :: "string \<Rightarrow> string" where
  "trim_start s = dropWhile is_ws s"

definition trim :: "string \<Rightarrow> string" where
  "trim s = rev (dropWhile is_ws (rev (dropWhile is_ws s)))"

definition is_digit :: "char \<Rightarrow> bool" where
  "is_digit c = (c \<in> set ''0123456789'')"

definition is_hex_digit :: "char \<Rightarrow> bool" where
  "is_hex_digit c = (c \<in> set ''0123456789abcdefABCDEF'')"

definition hex_val :: "char \<Rightarrow> nat" where
  "hex_val c = (if is_digit c then of_char c - 48
                else if c \<in> set ''abcdef'' then of_char c - 87
                else of_char c - 55)"

definition radix_val :: "nat \<Rightarrow> string \<Rightarrow> nat" where
  \<comment> \<open>the value of a digit string in the given radix\<close>
  "radix_val b s = foldl (\<lambda>n c. b * n + hex_val c) 0 s"

definition lower_char :: "char \<Rightarrow> char" where
  \<comment> \<open>lower case of one code unit below 256: A-Z, and the Latin-1 capitals except the
      multiplication sign\<close>
  "lower_char c =
     (let n = (of_char c :: nat)
      in if (65 \<le> n \<and> n \<le> 90) \<or> (192 \<le> n \<and> n \<le> 222 \<and> n \<noteq> 215)
         then char_of (n + 32) else c)"

definition toLowerCase :: "string \<Rightarrow> string" where
  \<comment> \<open>\<open>String.prototype.toLowerCase\<close>\<close>
  "toLowerCase s = map lower_char s"

fun str_includes :: "string \<Rightarrow> string \<Rightarrow> bool" where
  \<comment> \<open>\<open>String.prototype.includes\<close>: \<open>str_includes s t\<close> is \<open>s.includes(t)\<close>\<close>
  "str_includes [] t = (t = [])"
| "str_includes (c # s) t = (prefix t (c # s) \<or> str_includes s t)"

subsection \<open>\<open>Number\<close> on strings\<close>

text \<open>
  \<open>Number(s)\<close> trims white space from both ends; the empty rest is \<open>0\<close>; a rest that is a
  decimal literal (optional sign, digits with an optional fraction, optional exponent)
  or an unsigned hexadecimal, octal or binary literal is its value; anything else is
  \<open>NaN\<close>. Numbers are modelled as exact rationals and \<open>NaN\<close> as \<open>None\<close>. The model has no
  infinite numbers: it leaves out the literal \<open>Infinity\<close> and the rounding and overflow
  of IEEE doubles.
\<close>

definition exponent_part :: "string \<Rightarrow> int option" where
  \<comment> \<open>the exponent of a decimal literal: nothing, or \<open>e\<close>/\<open>E\<close>, an optional sign and digits\<close>
  "exponent_part s =
     (case s of
        [] \<Rightarrow> Some 0
      | c # t \<Rightarrow>
          if c = CHR ''e'' \<or> c = CHR ''E'' then
            (case t of
               [] \<Rightarrow> None
             | d # u \<Rightarrow>
                 if d = CHR ''-'' then
                   (if u \<noteq> [] \<and> list_all is_digit u then Some (- int (radix_val 10 u)) else None)
                 else if d = CHR ''+'' then
                   (if u \<noteq> [] \<and> list_all is_digit u then Some (int (radix_val 10 u)) else None)
                 else
                   (if list_all is_digit t then Some (int (radix_val 10 t)) else None))
          else None)"

definition scale10 :: "rat \<Rightarrow> int \<Rightarrow> rat" where
  "scale10 m e = (if 0 \<le> e then m * 10 ^ nat e else m / 10 ^ nat (- e))"

definition unsigned_decimal :: "string \<Rightarrow> rat option" where
  "unsigned_decimal s =
     (let ip = takeWhile is_digit s; r = dropWhile is_digit s
      in case r of
           c # t \<Rightarrow>
             if c = CHR ''.'' then
               (let fp = takeWhile is_digit t; r2 = dropWhile is_digit t
                in if ip = [] \<and> fp = [] then None
                   else (case exponent_part r2 of
                           None \<Rightarrow> None
                         | Some e \<Rightarrow>
                             Some (scale10 (of_nat (radix_val 10 ip)
                                            + of_nat (radix_val 10 fp) / 10 ^ length fp) e)))
             else if ip = [] then None
             else (case exponent_part r of
                     None \<Rightarrow> None
                   | Some e \<Rightarrow> Some (scale10 (of_nat (radix_val 10 ip)) e))
         | [] \<Rightarrow> if ip = [] then None else Some (of_nat (radix_val 10 ip)))"

definition prefixed_literal :: "string \<Rightarrow> rat option" where
  \<comment> \<open>\<open>0x\<close>, \<open>0o\<close>, \<open>0b\<close> literals (either case of the letter), unsigned\<close>
  "prefixed_literal s =
     (case s of
        z # p # ds \<Rightarrow>
          if z = CHR ''0'' \<and> ds \<noteq> [] then
            (if (p = CHR ''x'' \<or> p = CHR ''X'') \<and> list_all is_hex_digit ds
               then Some (of_nat (radix_val 16 ds))
             else if (p = CHR ''o'' \<or> p = CHR ''O'') \<and> list_all (\<lambda>c. c \<in> set ''01234567'') ds
               then Some (of_nat (radix_val 8 ds))
             else if (p = CHR ''b'' \<or> p = CHR ''B'') \<and> list_all (\<lambda>c. c \<in> set ''01'') ds
               then Some (of_nat (radix_val 2 ds))
             else None)
          else None
      | _ \<Rightarrow> None)"

definition Number :: "string \<Rightarrow> rat option" where
  "Number s =
     (let t = trim s
      in case t of
           [] \<Rightarrow> Some 0
         | c # u \<Rightarrow>
             (case prefixed_literal t of
                Some v \<Rightarrow> Some v
              | None \<Rightarrow>
                  if c = CHR ''-'' then map_option uminus (unsigned_decimal u)
                  else if c = CHR ''+'' then unsigned_decimal u
                  else unsigned_decimal t))"

subsection \<open>\<open>parseInt\<close> and \<open>String\<close> on values\<close>

definition parseInt_string :: "string \<Rightarrow> int option" where
  \<comment> \<open>\<open>parseInt(s)\<close> with no radix: leading white space, an optional sign, then the longest
      prefix of digits (hexadecimal after \<open>0x\<close>); \<open>NaN\<close> when there is no digit\<close>
  "parseInt_string s =
     (let t = trim_start s;
          neg = (t \<noteq> [] \<and> hd t = CHR ''-'');
          u = (if t \<noteq> [] \<and> (hd t = CHR ''-'' \<or> hd t = CHR ''+'') then tl t else t);
          hex = (case u of z # p # _ \<Rightarrow> z = CHR ''0'' \<and> (p = CHR ''x'' \<or> p = CHR ''X'')
                 | _ \<Rightarrow> False);
          ds = (if hex then takeWhile is_hex_digit (drop 2 u) else takeWhile is_digit u);
          v = int (radix_val (if hex then 16 else 10) ds)
      in if ds = [] then None else Some (if neg then - v else v))"



fun parseInt :: "jsval \<Rightarrow> int option" where
  \<comment> \<open>\<open>parseInt(v)\<close>: the argument is first converted to a string\<close>
  "parseInt JUndefined = None"
| "parseInt JNull = None"
| "parseInt (JNum n) = Some n"
| "parseInt (JStr s) = parseInt_string s"




definition or_default :: "int option \<Rightarrow> int \<Rightarrow> int" where
  \<comment> \<open>\<open>v || d\<close> on a number: \<open>NaN\<close> and \<open>0\<close> are falsy\<close>
  "or_default v d = (case v of None \<Rightarrow> d | Some n \<Rightarrow> if n = 0 then d else n)"

definition slice :: "'a list \<Rightarrow> int \<Rightarrow> int \<Rightarrow> 'a list" where
  \<comment> \<open>\<open>Array.prototype.slice(start, end)\<close>: a negative index counts from the end, both
      are cut to the length\<close>
  "slice xs start fin =
     (let len = int (length xs);
          k = (if start < 0 then max (len + start) 0 else min start len);
          final = (if fin < 0 then max (len + fin) 0 else min fin len)
      in take (nat (final - k)) (drop (nat k) xs))"

subsection \<open>\<open>localeCompare\<close>, \<open>Math.round\<close>, \<open>Math.min\<close>, \<open>Math.max\<close>\<close>

definition localeCompare :: "string \<Rightarrow> string \<Rightarrow> rat" where
  \<comment> \<open>\<open>a.localeCompare(b)\<close>, modelled by the lexicographic order of the code units. The
      engine's collation agrees with it on strings of digits and lower-case ASCII
      letters; it orders punctuation and accented letters differently.\<close>
  "localeCompare a b = (if a < b then - 1 else if a = b then 0 else 1)"

definition Math_round :: "rat \<Rightarrow> rat" where
  \<comment> \<open>\<open>Math.round\<close>: the nearest integer, a tie going up\<close>
  "Math_round x = of_int \<lfloor>x + 1 / 2\<rfloor>"

definition Math_min :: "rat list \<Rightarrow> rat" where
  \<comment> \<open>\<open>Math.min(...xs)\<close> for one argument or more (with none JavaScript yields
      \<open>Infinity\<close>; the only call is guarded by \<open>values.length > 0\<close>)\<close>
  "Math_min xs = foldl min (hd xs) (tl xs)"

definition Math_max :: "rat list \<Rightarrow> rat" where
  "Math_max xs = foldl max (hd xs) (tl xs)"

subsection \<open>\<open>Array.prototype.sort\<close>\<close>

text \<open>
  ECMAScript requires \<open>sort\<close> to be stable and fixes its result only for a comparator that
  is consistent on the elements (reflexive, antisymmetric, transitive); otherwise the
  order is left to the implementation. The comparators of \<open>sortCsv\<close> are not consistent
  on every input, so the model follows the implementation: V8, the engine of Node.js,
  on which csv2api runs. For an array of fewer than 64 elements V8's TimSort finds the
  run at the start of the array (\<open>CountAndMakeRun\<close>: a run that strictly descends is
  reversed) and inserts each later element by binary search (\<open>BinaryInsertionSort\<close>); a
  comparator result \<open>order\<close> is only tested as \<open>order < 0\<close>, with the later element as the
  first argument. That procedure is the model, for arrays of every length. For 64
  elements and more V8 merges several such runs; for a consistent comparator the
  result is the same, the stable sorted arrangement being unique.
\<close>

fun count_ascending :: "('a \<Rightarrow> 'a \<Rightarrow> rat) \<Rightarrow> 'a \<Rightarrow> 'a list \<Rightarrow> nat" where
  \<comment> \<open>how far the run goes on after \<open>prev\<close>: it stops at the first \<open>order < 0\<close>\<close>
  "count_ascending cmp prev [] = 0"
| "count_ascending cmp prev (x # xs) =
     (if cmp x prev < 0 then 0 else Suc (count_ascending cmp x xs))"

fun count_descending :: "('a \<Rightarrow> 'a \<Rightarrow> rat) \<Rightarrow> 'a \<Rightarrow> 'a list \<Rightarrow> nat" where
  \<comment> \<open>the same for a descending run: it stops at the first \<open>order >= 0\<close>\<close>
  "count_descending cmp prev [] = 0"
| "count_descending cmp prev (x # xs) =
     (if cmp x prev < 0 then Suc (count_descending cmp x xs) else 0)"

function binary_search :: "('a \<Rightarrow> 'a \<Rightarrow> rat) \<Rightarrow> 'a \<Rightarrow> 'a list \<Rightarrow> nat \<Rightarrow> nat \<Rightarrow> nat" where
  \<comment> \<open>the inner loop of \<open>BinaryInsertionSort\<close>: where \<open>pivot\<close> goes in the sorted part\<close>
  "binary_search cmp pivot work left right =
     (if left < right then
        (let mid = left + (right - left) div 2
         in if cmp pivot (work ! mid) < 0
            then binary_search cmp pivot work left mid
            else binary_search cmp pivot work (mid + 1) right)
      else left)"
  by pat_completeness auto
termination
  by (relation "measure (\<lambda>(cmp, pivot, work, left, right). right - left)") auto

declare binary_search.simps [simp del]

fun binary_insertion_sort :: "('a \<Rightarrow> 'a \<Rightarrow> rat) \<Rightarrow> 'a list \<Rightarrow> 'a list \<Rightarrow> 'a list" where
  \<comment> \<open>the sorted part of the array, then the elements still to insert\<close>
  "binary_insertion_sort cmp work [] = work"
| "binary_insertion_sort cmp work (pivot # rest) =
     (let k = binary_search cmp pivot work 0 (length work)
      in binary_insertion_sort cmp (take k work @ pivot # drop k work) rest)"

definition array_sort :: "('a \<Rightarrow> 'a \<Rightarrow> rat) \<Rightarrow> 'a list \<Rightarrow> 'a list" where
  "array_sort cmp xs =
     (case xs of
        x # y # rest \<Rightarrow>
          if cmp y x < 0 then
            (let n = 2 + count_descending cmp y rest
             in binary_insertion_sort cmp (rev (take n xs)) (drop n xs))
          else
            (let n = 2 + count_ascending cmp y rest
             in binary_insertion_sort cmp (take n xs) (drop n xs))
      | _ \<Rightarrow> xs)"

section \<open>The query functions (\<open>queryUtils.js\<close>)\<close>

subsection \<open>\<open>searchCsv\<close>\<close>

text \<open>
  The search term is a string or absent (\<open>None\<close> stands for \<open>undefined\<close> and \<open>null\<close>);
  the empty string is falsy, as an absent term is.
\<close>

definition cell_matches :: "string \<Rightarrow> cell \<Rightarrow> bool" where
  \<comment> \<open>the callback of \<open>some\<close>: \<open>String(value).toLowerCase().includes(term)\<close>\<close>
  "cell_matches term v =
     (case v of CNull \<Rightarrow> False | CStr s \<Rightarrow> str_includes (toLowerCase s) term)"

definition searchCsv :: "row list \<Rightarrow> string option \<Rightarrow> row list" where
  "searchCsv rows searchTerm =
     (case searchTerm of
        None \<Rightarrow> rows
      | Some st \<Rightarrow>
          if st = [] \<or> rows = [] then rows
          else (let term = toLowerCase st
                in filter (\<lambda>row. list_ex (cell_matches term) (object_values row)) rows))"

subsection \<open>\<open>paginateCsv\<close>\<close>

text \<open>
  The result object and its \<open>pagination\<close> object. The early return for empty data
  stores the \<open>limit\<close> argument as it was passed, so the field holds any value, and it
  has no \<open>startIndex\<close> and \<open>endIndex\<close> properties: \<open>None\<close> is an absent property.
\<close>

record pagination_info =
  page :: int
  limit :: jsval
  totalRows :: int
  totalPages :: int
  hasNext :: bool
  hasPrev :: bool
  startIndex :: "int option"
  endIndex :: "int option"

record 'a page_result =
  data :: "'a list"
  pagination :: pagination_info

definition paginateCsv :: "'a list \<Rightarrow> jsval \<Rightarrow> jsval \<Rightarrow> 'a page_result" where
  "paginateCsv rows page_arg limit_arg =
     (let pg = (if page_arg = JUndefined then JNum 1 else page_arg);
          lim = (if limit_arg = JUndefined then JNum 10 else limit_arg)
      in if rows = [] then
           \<lparr>data = [],
            pagination = \<lparr>page = 1, limit = lim, totalRows = 0, totalPages = 0,
                          hasNext = False, hasPrev = False,
                          startIndex = None, endIndex = None\<rparr>\<rparr>
         else
           (let currentPage = max 1 (or_default (parseInt pg) 1);
                pageLimit = max 1 (or_default (parseInt lim) 10);
                total = int (length rows);
                pages = \<lceil>rat_of_int total / rat_of_int pageLimit\<rceil>;
                startIdx = (currentPage - 1) * pageLimit;
                endIdx = min (startIdx + pageLimit) total;
                paginatedData = slice rows startIdx endIdx
            in \<lparr>data = paginatedData,
                pagination = \<lparr>page = currentPage, limit = JNum pageLimit,
                              totalRows = total, totalPages = pages,
                              hasNext = (currentPage < pages), hasPrev = (currentPage > 1),
                              startIndex = Some (startIdx + 1), endIndex = Some endIdx\<rparr>\<rparr>))"

subsection \<open>\<open>getRowById\<close>\<close>




subsection \<open>\<open>sortCsv\<close>\<close>

text \<open>
  \<open>column\<close> and \<open>direction\<close> are strings. An absent column is falsy as the empty string
  is, and an absent direction takes the default \<open>asc\<close>; every direction other than
  \<open>desc\<close> sorts ascending.
\<close>

definition compare_rows :: "string \<Rightarrow> string \<Rightarrow> row \<Rightarrow> row \<Rightarrow> rat" where
  \<comment> \<open>the comparator passed to \<open>sort\<close>\<close>
  "compare_rows column direction a b =
     (case get_prop a column of
        None \<Rightarrow> 1
      | Some CNull \<Rightarrow> 1
      | Some (CStr aVal) \<Rightarrow>
          (case get_prop b column of
             None \<Rightarrow> - 1
           | Some CNull \<Rightarrow> - 1
           | Some (CStr bVal) \<Rightarrow>
               (case (Number aVal, Number bVal) of
                  (Some aNum, Some bNum) \<Rightarrow>
                    if direction = ''desc'' then bNum - aNum else aNum - bNum
                | _ \<Rightarrow>
                    (let aStr = toLowerCase aVal; bStr = toLowerCase bVal
                     in if direction = ''desc'' then localeCompare bStr aStr
                        else localeCompare aStr bStr))))"


subsection \<open>\<open>getColumnStats\<close>\<close>

record column_stats =
  count_stat :: nat
  sum_stat :: rat
  mean :: rat
  median :: rat
  min_stat :: rat
  max_stat :: rat
  range_stat :: rat

definition column_values :: "row list \<Rightarrow> string \<Rightarrow> rat list" where
  \<comment> \<open>\<open>values\<close>: the cells of the column that are not nullish and whose \<open>Number\<close> is not
      \<open>NaN\<close>, as numbers (the \<open>filter\<close> and the second \<open>map\<close> in one pass)\<close>
  "column_values rows column =
     List.map_filter
       (\<lambda>val. case val of Some (CStr s) \<Rightarrow> Number s | _ \<Rightarrow> None)
       (map (\<lambda>r. get_prop r column) rows)"

definition stats_of :: "rat list \<Rightarrow> column_stats option" where
  \<comment> \<open>the body of \<open>if (values.length > 0)\<close>; \<open>sort\<close> works in place, so \<open>values\<close> is the
      sorted array from then on\<close>
  "stats_of vals =
     (if vals = [] then None
      else
        (let total = foldl (+) 0 vals;
             avg = total / of_nat (length vals);
             ordered = array_sort (\<lambda>a b. a - b) vals;
             med = (if length ordered mod 2 = 0
                    then (ordered ! (length ordered div 2 - 1) + ordered ! (length ordered div 2)) / 2
                    else ordered ! (length ordered div 2))
         in Some \<lparr>count_stat = length ordered,
                  sum_stat = total,
                  mean = Math_round (avg * 100) / 100,
                  median = Math_round (med * 100) / 100,
                  min_stat = Math_min ordered,
                  max_stat = Math_max ordered,
                  range_stat = Math_max ordered - Math_min ordered\<rparr>))"

definition getColumnStats :: "row list \<Rightarrow> string list \<Rightarrow> (string \<rightharpoonup> column_stats)" where
  "getColumnStats rows numericColumns =
     (if rows = [] then Map.empty
      else
        (let columnsToAnalyze =
               (if numericColumns \<noteq> [] then numericColumns else object_keys (hd rows))
         in foldl (\<lambda>stats column.
                     case stats_of (column_values rows column) of
                       None \<Rightarrow> stats
                     | Some st \<Rightarrow> stats(column \<mapsto> st))
                  Map.empty columnsToAnalyze))"

section \<open>The loader (\<open>csvLoader.js\<close>)\<close>

text \<open>
  \<open>CsvLoader\<close> holds the rows and the column names of the last load. \<open>loadCsv\<close> first
  stores the path, then checks that the file exists, then reads the stream of parsed
  rows into local arrays; only the handler of the stream's \<open>end\<close> event assigns them to
  the loader. What the file system and the parser do is the input of the model: the
  file is missing, or it is a sequence of stream events. A stream emits nothing after
  its \<open>end\<close> or \<open>error\<close>. \<open>path.resolve\<close> is left out: a path stands for itself.
\<close>

record loader =
  this_data :: "row list"
  this_columns :: "string list"
  this_filePath :: "string option"

datatype event =
    DataEvent row
  | EndEvent "nat option"  \<comment> \<open>with what \<open>fs.statSync\<close> then gives: the time, or it throws\<close>
  | ErrorEvent string

datatype csv_file = Missing | Stream "event list"

record load_result =
  result_data :: "row list"
  result_columns :: "string list"
  result_totalRows :: nat
  result_filePath :: string
  result_lastModified :: nat

datatype outcome =
    Resolved load_result
  | Rejected string
  | Thrown  \<comment> \<open>an exception inside the \<open>end\<close> handler; the promise stays pending\<close>
  | Pending

definition add_key :: "string list \<Rightarrow> string \<Rightarrow> string list" where
  \<comment> \<open>\<open>columns.add(key)\<close> on a \<open>Set\<close>, which keeps insertion order\<close>
  "add_key columns key = (if key \<in> set columns then columns else columns @ [key])"

fun read_stream ::
  "loader \<Rightarrow> string \<Rightarrow> row list \<Rightarrow> string list \<Rightarrow> event list \<Rightarrow> loader \<times> outcome" where
  "read_stream this path rows columns [] = (this, Pending)"
| "read_stream this path rows columns (DataEvent r # es) =
     read_stream this path (rows @ [r]) (foldl add_key columns (object_keys r)) es"
| "read_stream this path rows columns (EndEvent mtime # es) =
     (let this' = this\<lparr>this_data := rows, this_columns := columns\<rparr>
      in case mtime of
           None \<Rightarrow> (this', Thrown)
         | Some t \<Rightarrow>
             (this', Resolved \<lparr>result_data = this_data this',
                               result_columns = this_columns this',
                               result_totalRows = length (this_data this'),
                               result_filePath = path,
                               result_lastModified = t\<rparr>))"
| "read_stream this path rows columns (ErrorEvent msg # es) =
     (this, Rejected (''Error parsing CSV: '' @ msg))"

definition loadCsv :: "loader \<Rightarrow> string \<Rightarrow> csv_file \<Rightarrow> loader \<times> outcome" where
  "loadCsv this filePath f =
     (let this' = this\<lparr>this_filePath := Some filePath\<rparr>
      in case f of
           Missing \<Rightarrow>
             (this', Rejected (''Failed to load CSV: CSV file not found: '' @ filePath))
         | Stream es \<Rightarrow> read_stream this' filePath [] [] es)"

definition getData :: "loader \<Rightarrow> row list" where
  "getData this = this_data this"

definition getColumns :: "loader \<Rightarrow> string list" where
  "getColumns this = this_columns this"

section \<open>Auxiliary notions for the proofs\<close>

definition placed :: "('a \<Rightarrow> 'a \<Rightarrow> rat) \<Rightarrow> 'a \<Rightarrow> 'a \<Rightarrow> bool" where
  \<comment> \<open>\<open>y\<close> may stand right after \<open>x\<close> in a sorted array: the comparator, asked with either
      one as its first argument, has not put \<open>y\<close> before \<open>x\<close>\<close>
  "placed cmp x y = (\<not> cmp y x < 0 \<or> cmp x y < 0)"

section \<open>Example data\<close>

definition people :: "row list" where
  "people =
     [[(''name'', CStr ''John''), (''age'', CStr ''30'')],
      [(''name'', CNull)],
      [(''name'', CStr ''Bob JOHNSON''), (''age'', CStr ''35'')]]"





definition blank_rows :: "row list" where
  \<comment> \<open>a column with a blank cell, an empty cell and a number\<close>
  "blank_rows = [[(''v'', CStr '' '')], [(''v'', CStr [])], [(''v'', CStr ''4'')]]"

section \<open>Properties of \<open>searchCsv\<close>\<close>

lemma str_includes_iff: "str_includes s t \<longleftrightarrow> sublist t s"
  by (induction s) (auto simp: sublist_Cons_right)

lemma cell_matches_CStr:
  "cell_matches t v \<longleftrightarrow> (\<exists>s. v = CStr s \<and> sublist t (toLowerCase s))"
  by (cases v) (simp_all add: cell_matches_def str_includes_iff)

lemma cell_matches_iff:
  "list_ex (cell_matches t) (object_values r) \<longleftrightarrow>
     (\<exists>s. CStr s \<in> set (object_values r) \<and> sublist t (toLowerCase s))"
  by (auto simp: list_ex_iff cell_matches_CStr)

text \<open>
  C6. With an absent or empty term \<open>searchCsv\<close> returns the rows unchanged. With a
  non-empty term it returns the rows, in their original order, in which some string cell
  contains the term as a substring once both are in lower case; the result is a
  subsequence of the input, and a row whose cells are all \<open>null\<close> (or that has no cell)
  is never returned.
\<close>

theorem searchCsv_spec:
  "searchCsv rows None = rows \<and> searchCsv rows (Some []) = rows \<and>
   (t \<noteq> [] \<longrightarrow>
      searchCsv rows (Some t) =
        filter (\<lambda>r. \<exists>s. CStr s \<in> set (object_values r)
                        \<and> sublist (toLowerCase t) (toLowerCase s)) rows
      \<and> subseq (searchCsv rows (Some t)) rows
      \<and> (\<forall>r \<in> set rows. (\<forall>v \<in> set (object_values r). v = CNull)
             \<longrightarrow> r \<notin> set (searchCsv rows (Some t))))"
proof -
  have filt: "searchCsv rows (Some t) =
        filter (\<lambda>r. \<exists>s. CStr s \<in> set (object_values r)
                        \<and> sublist (toLowerCase t) (toLowerCase s)) rows" if "t \<noteq> []"
    using that by (cases "rows = []") (simp_all add: searchCsv_def cell_matches_iff)
  show ?thesis
    using filt by (auto simp: searchCsv_def)
qed

theorem searchCsv_spec_witness:
  "''joHn'' \<noteq> []
   \<and> searchCsv people (Some ''joHn'') =
       [[(''name'', CStr ''John''), (''age'', CStr ''30'')],
        [(''name'', CStr ''Bob JOHNSON''), (''age'', CStr ''35'')]]
   \<and> subseq (searchCsv people (Some ''joHn'')) people
   \<and> [(''name'', CNull)] \<notin> set (searchCsv people (Some ''joHn''))"
proof -
  have h: "''joHn'' \<noteq> []" by simp
  have v: "searchCsv people (Some ''joHn'') =
       [[(''name'', CStr ''John''), (''age'', CStr ''30'')],
        [(''name'', CStr ''Bob JOHNSON''), (''age'', CStr ''35'')]]"
    by code_simp
  have m: "[(''name'', CNull)] \<in> set people"
    "\<forall>v \<in> set (object_values [(''name'', CNull)]). v = CNull"
    by (simp_all add: people_def object_values_def)
  from searchCsv_spec [of people "''joHn''"] h
  have "subseq (searchCsv people (Some ''joHn'')) people"
    and "\<forall>r \<in> set people. (\<forall>v \<in> set (object_values r). v = CNull)
             \<longrightarrow> r \<notin> set (searchCsv people (Some ''joHn''))"
    by blast+
  with h v m show ?thesis by blast
qed

section \<open>Properties of \<open>paginateCsv\<close>\<close>










text \<open>
  C4. For the empty row sequence the claim promises the metadata of every other result:
  a limit of at least 1 and the two indices. The early return of \<open>paginateCsv\<close> comes
  before the arguments are normalised: it stores the \<open>limit\<close> argument as it was passed,
  here \<open>0\<close>, and its pagination object has no \<open>startIndex\<close> and no \<open>endIndex\<close>.
\<close>

theorem paginateCsv_empty_unnormalised:
  "paginateCsv ([] :: row list) (JNum 1) (JNum 0) =
     \<lparr>data = [],
      pagination = \<lparr>page = 1, limit = JNum 0, totalRows = 0, totalPages = 0,
                    hasNext = False, hasPrev = False,
                    startIndex = None, endIndex = None\<rparr>\<rparr>"
  by (simp add: paginateCsv_def)



section \<open>Properties of \<open>getRowById\<close>\<close>




section \<open>Properties of the loader\<close>

lemma read_stream_error:
  "read_stream this path rows columns (map DataEvent rs @ ErrorEvent msg # es)
     = (this, Rejected (''Error parsing CSV: '' @ msg))"
  by (induction rs arbitrary: rows columns) simp_all

text \<open>
  C9. A reload that fails leaves the loader's rows and columns as they were: when the
  file is missing, and when the stream reports an error after any number of rows,
  \<open>loadCsv\<close> rejects and \<open>getData\<close> and \<open>getColumns\<close> give afterwards what they gave
  before, for every state of the loader. (The path stored in the loader does change. A
  stream that ends has been parsed in full; its rows are stored before \<open>fs.statSync\<close>
  is called, so they stay when that call throws: that is not a failed ingestion.)
\<close>

theorem loadCsv_failure_keeps_snapshot:
  "getData (fst (loadCsv this path Missing)) = getData this
   \<and> getColumns (fst (loadCsv this path Missing)) = getColumns this
   \<and> (\<exists>msg. snd (loadCsv this path Missing) = Rejected msg)
   \<and> getData (fst (loadCsv this path (Stream (map DataEvent rs @ ErrorEvent e # es))))
       = getData this
   \<and> getColumns (fst (loadCsv this path (Stream (map DataEvent rs @ ErrorEvent e # es))))
       = getColumns this
   \<and> (\<exists>msg. snd (loadCsv this path (Stream (map DataEvent rs @ ErrorEvent e # es)))
         = Rejected msg)"
  by (simp add: loadCsv_def getData_def getColumns_def read_stream_error)

section \<open>Properties of the model of \<open>Array.prototype.sort\<close>\<close>

subsection \<open>Binary search\<close>

lemma binary_search_bounds:
  "left \<le> right \<Longrightarrow>
     left \<le> binary_search cmp p w left right \<and> binary_search cmp p w left right \<le> right"
proof (induction cmp p w left right rule: binary_search.induct)
  case (1 cmp p w left right)
  show ?case
  proof (cases "left < right")
    case True
    define mid where "mid = left + (right - left) div 2"
    have m: "left \<le> mid" "mid < right" using True by (simp_all add: mid_def)
    show ?thesis
    proof (cases "cmp p (w ! mid) < 0")
      case lt: True
      have "left \<le> binary_search cmp p w left mid \<and> binary_search cmp p w left mid \<le> mid"
        using "1.IH"(1) [OF True mid_def lt] m by simp
      moreover have "binary_search cmp p w left right = binary_search cmp p w left mid"
        using True lt by (subst binary_search.simps) (simp add: mid_def Let_def)
      ultimately show ?thesis using m by simp
    next
      case ge: False
      have "mid + 1 \<le> binary_search cmp p w (mid + 1) right
            \<and> binary_search cmp p w (mid + 1) right \<le> right"
        using "1.IH"(2) [OF True mid_def ge] m by simp
      moreover have "binary_search cmp p w left right = binary_search cmp p w (mid + 1) right"
        using True ge by (subst binary_search.simps) (simp add: mid_def Let_def)
      ultimately show ?thesis using m by simp
    qed
  next
    case False
    then have "binary_search cmp p w left right = left"
      by (subst binary_search.simps) simp
    then show ?thesis using "1.prems" False by simp
  qed
qed

lemma binary_search_left:
  "left \<le> right \<Longrightarrow>
     binary_search cmp p w left right = left
     \<or> \<not> cmp p (w ! (binary_search cmp p w left right - 1)) < 0"
proof (induction cmp p w left right rule: binary_search.induct)
  case (1 cmp p w left right)
  show ?case
  proof (cases "left < right")
    case True
    define mid where "mid = left + (right - left) div 2"
    have m: "left \<le> mid" "mid < right" using True by (simp_all add: mid_def)
    show ?thesis
    proof (cases "cmp p (w ! mid) < 0")
      case lt: True
      have eq: "binary_search cmp p w left right = binary_search cmp p w left mid"
        using True lt by (subst binary_search.simps) (simp add: mid_def Let_def)
      show ?thesis
        using "1.IH"(1) [OF True mid_def lt] m unfolding eq by simp
    next
      case ge: False
      have eq: "binary_search cmp p w left right = binary_search cmp p w (mid + 1) right"
        using True ge by (subst binary_search.simps) (simp add: mid_def Let_def)
      have "binary_search cmp p w (mid + 1) right = mid + 1
            \<or> \<not> cmp p (w ! (binary_search cmp p w (mid + 1) right - 1)) < 0"
        using "1.IH"(2) [OF True mid_def ge] m by simp
      then show ?thesis unfolding eq using ge by auto
    qed
  next
    case False
    then have "binary_search cmp p w left right = left"
      by (subst binary_search.simps) simp
    then show ?thesis by simp
  qed
qed

lemma binary_search_right:
  "left \<le> right \<Longrightarrow>
     binary_search cmp p w left right = right
     \<or> cmp p (w ! (binary_search cmp p w left right)) < 0"
proof (induction cmp p w left right rule: binary_search.induct)
  case (1 cmp p w left right)
  show ?case
  proof (cases "left < right")
    case True
    define mid where "mid = left + (right - left) div 2"
    have m: "left \<le> mid" "mid < right" using True by (simp_all add: mid_def)
    show ?thesis
    proof (cases "cmp p (w ! mid) < 0")
      case lt: True
      have eq: "binary_search cmp p w left right = binary_search cmp p w left mid"
        using True lt by (subst binary_search.simps) (simp add: mid_def Let_def)
      have "binary_search cmp p w left mid = mid
            \<or> cmp p (w ! (binary_search cmp p w left mid)) < 0"
        using "1.IH"(1) [OF True mid_def lt] m by simp
      then show ?thesis unfolding eq using lt by auto
    next
      case ge: False
      have eq: "binary_search cmp p w left right = binary_search cmp p w (mid + 1) right"
        using True ge by (subst binary_search.simps) (simp add: mid_def Let_def)
      show ?thesis
        using "1.IH"(2) [OF True mid_def ge] m unfolding eq by simp
    qed
  next
    case False
    then have "binary_search cmp p w left right = left"
      by (subst binary_search.simps) simp
    then show ?thesis using "1.prems" False by simp
  qed
qed


subsection \<open>Neighbours in the result agree with the comparator\<close>

lemma successively_take: "successively P xs \<Longrightarrow> successively P (take n xs)"
  by (metis append_take_drop_id successively_append_iff)

lemma successively_drop: "successively P xs \<Longrightarrow> successively P (drop n xs)"
  by (metis append_take_drop_id successively_append_iff)

lemma successively_insert:
  assumes s: "successively P w" and k: "k \<le> length w"
    and l: "k = 0 \<or> P (w ! (k - 1)) p"
    and r: "k = length w \<or> P p (w ! k)"
  shows "successively P (take k w @ p # drop k w)"
proof -
  have 1: "successively P (take k w)" using s by (rule successively_take)
  have 2: "successively P (p # drop k w)"
  proof (cases "k = length w")
    case True
    then show ?thesis by simp
  next
    case False
    then have "k < length w" using k by simp
    then have "hd (drop k w) = w ! k" by (rule hd_drop_conv_nth)
    then show ?thesis using r False successively_drop [OF s, of k]
      by (simp add: successively_Cons)
  qed
  have 3: "take k w = [] \<or> P (last (take k w)) p"
  proof (cases "k = 0")
    case True
    then show ?thesis by simp
  next
    case False
    then have "take k w \<noteq> []" "length (take k w) = k" using k by auto
    then have "last (take k w) = w ! (k - 1)" using False by (simp add: last_conv_nth)
    then show ?thesis using l False by simp
  qed
  show ?thesis using 1 2 3 by (simp add: successively_append_iff)
qed

lemma placed_binary_insert:
  assumes "successively (placed cmp) w"
  shows "successively (placed cmp)
           (take (binary_search cmp p w 0 (length w)) w
            @ p # drop (binary_search cmp p w 0 (length w)) w)"
proof -
  let ?k = "binary_search cmp p w 0 (length w)"
  have b: "?k \<le> length w" using binary_search_bounds [of 0 "length w" cmp p w] by simp
  have l: "?k = 0 \<or> placed cmp (w ! (?k - 1)) p"
    using binary_search_left [of 0 "length w" cmp p w] by (auto simp: placed_def)
  have r: "?k = length w \<or> placed cmp p (w ! ?k)"
    using binary_search_right [of 0 "length w" cmp p w] by (auto simp: placed_def)
  show ?thesis using assms b l r by (rule successively_insert)
qed

lemma placed_binary_insertion_sort:
  "successively (placed cmp) w \<Longrightarrow> successively (placed cmp) (binary_insertion_sort cmp w rest)"
  by (induction rest arbitrary: w) (simp_all add: Let_def placed_binary_insert)

lemma ascending_run:
  "successively (\<lambda>a b. \<not> cmp b a < 0) (x # take (count_ascending cmp x xs) xs)"
  by (induction xs arbitrary: x) simp_all

lemma descending_run:
  "successively (\<lambda>a b. cmp b a < 0) (x # take (count_descending cmp x xs) xs)"
  by (induction xs arbitrary: x) simp_all

lemma placed_array_sort: "successively (placed cmp) (array_sort cmp xs)"
proof (cases xs)
  case Nil
  then show ?thesis by (simp add: array_sort_def)
next
  case (Cons x ys)
  show ?thesis
  proof (cases ys)
    case Nil
    then show ?thesis using Cons by (simp add: array_sort_def)
  next
    case (Cons y rest)
    show ?thesis
    proof (cases "cmp y x < 0")
      case True
      have "successively (\<lambda>a b. cmp b a < 0) (x # y # take (count_descending cmp y rest) rest)"
        using True descending_run [of cmp y rest] by simp
      then have "successively (placed cmp) (rev (x # y # take (count_descending cmp y rest) rest))"
        unfolding successively_rev by (rule successively_mono) (simp add: placed_def)
      then show ?thesis using True \<open>xs = x # ys\<close> Cons
        by (simp add: array_sort_def Let_def placed_binary_insertion_sort)
    next
      case False
      have "successively (\<lambda>a b. \<not> cmp b a < 0) (x # y # take (count_ascending cmp y rest) rest)"
        using False ascending_run [of cmp y rest] by simp
      then have "successively (placed cmp) (x # y # take (count_ascending cmp y rest) rest)"
        by (rule successively_mono) (simp add: placed_def)
      then show ?thesis using False \<open>xs = x # ys\<close> Cons
        by (simp add: array_sort_def Let_def placed_binary_insertion_sort)
    qed
  qed
qed

subsection \<open>The result is a permutation\<close>

lemma mset_binary_insertion_sort:
  "mset (binary_insertion_sort cmp w rest) = mset w + mset rest"
proof (induction rest arbitrary: w)
  case Nil
  then show ?case by simp
next
  case (Cons p rest)
  have "mset (take k w @ p # drop k w) = add_mset p (mset w)" for k
    by (metis append_take_drop_id mset.simps(2) mset_append union_mset_add_mset_right)
  then show ?case using Cons by (simp add: Let_def)
qed

lemma mset_array_sort: "mset (array_sort cmp xs) = mset xs"
proof -
  have "mset (rev (take n ys)) + mset (drop n ys) = mset ys" for n and ys :: "'a list"
    by (metis append_take_drop_id mset_append mset_rev)
  moreover have "mset (take n ys) + mset (drop n ys) = mset ys" for n and ys :: "'a list"
    by (metis append_take_drop_id mset_append)
  ultimately show ?thesis
    by (simp add: array_sort_def Let_def mset_binary_insertion_sort split: list.splits)
qed

subsection \<open>Stability for a comparator that is transitive on the elements\<close>







section \<open>Properties of \<open>sortCsv\<close>\<close>

lemma compare_missing_left:
  "nullish (get_prop a c) \<Longrightarrow> compare_rows c d a b = 1"
  by (auto simp: compare_rows_def nullish_def)

lemma compare_missing_right:
  "\<not> nullish (get_prop a c) \<Longrightarrow> nullish (get_prop b c) \<Longrightarrow> compare_rows c d a b = - 1"
  by (auto simp: compare_rows_def nullish_def split: option.splits cell.splits)


lemma compare_present:
  assumes "get_prop a c = Some (CStr aVal)" "get_prop b c = Some (CStr bVal)"
  shows "compare_rows c d a b =
           (case (Number aVal, Number bVal) of
              (Some aNum, Some bNum) \<Rightarrow> if d = ''desc'' then bNum - aNum else aNum - bNum
            | _ \<Rightarrow> if d = ''desc'' then localeCompare (toLowerCase bVal) (toLowerCase aVal)
                   else localeCompare (toLowerCase aVal) (toLowerCase bVal))"
  using assms by (simp add: compare_rows_def Let_def split: option.split)

lemma present_cell:
  "\<not> nullish (get_prop a c) \<Longrightarrow> \<exists>aVal. get_prop a c = Some (CStr aVal)"
  by (cases "get_prop a c") (auto simp: nullish_def intro: cell.exhaust)




subsection \<open>An element that compares below nothing stays last\<close>











subsection \<open>Columns on which the comparison is transitive\<close>

text \<open>
  When every value of the column is a number, or none is, every pair of rows is compared
  in the same way and the comparison is transitive.
\<close>

lemma localeCompare_nonneg: "0 \<le> localeCompare a b \<longleftrightarrow> b \<le> a"
  by (auto simp: localeCompare_def)

lemma uniform_column_transitive:
  assumes u: "(\<forall>r \<in> set rows. \<forall>s. get_prop r c = Some (CStr s) \<longrightarrow> Number s \<noteq> None)
              \<or> (\<forall>r \<in> set rows. \<forall>s. get_prop r c = Some (CStr s) \<longrightarrow> Number s = None)"
  shows "\<forall>x \<in> set rows. \<forall>y \<in> set rows. \<forall>z \<in> set rows.
           0 \<le> compare_rows c d y x \<and> 0 \<le> compare_rows c d z y
           \<longrightarrow> 0 \<le> compare_rows c d z x"
proof (intro ballI impI)
  fix x y z
  assume m: "x \<in> set rows" "y \<in> set rows" "z \<in> set rows"
    and le: "0 \<le> compare_rows c d y x \<and> 0 \<le> compare_rows c d z y"
  show "0 \<le> compare_rows c d z x"
  proof (cases "nullish (get_prop z c)")
    case True
    then show ?thesis by (simp add: compare_missing_left)
  next
    case pz: False
    have py: "\<not> nullish (get_prop y c)"
    proof
      assume "nullish (get_prop y c)"
      then have "compare_rows c d z y = - 1" using pz by (simp add: compare_missing_right)
      then show False using le by simp
    qed
    have px: "\<not> nullish (get_prop x c)"
    proof
      assume "nullish (get_prop x c)"
      then have "compare_rows c d y x = - 1" using py by (simp add: compare_missing_right)
      then show False using le by simp
    qed
    from present_cell [OF px] obtain xv where vx: "get_prop x c = Some (CStr xv)" ..
    from present_cell [OF py] obtain yv where vy: "get_prop y c = Some (CStr yv)" ..
    from present_cell [OF pz] obtain zv where vz: "get_prop z c = Some (CStr zv)" ..
    note v = vx vy vz
    note yx = compare_present [OF v(2) v(1), of d]
      and zy = compare_present [OF v(3) v(2), of d]
      and zx = compare_present [OF v(3) v(1), of d]
    from u show ?thesis
    proof
      assume "\<forall>r \<in> set rows. \<forall>s. get_prop r c = Some (CStr s) \<longrightarrow> Number s \<noteq> None"
      then have "Number xv \<noteq> None" "Number yv \<noteq> None" "Number zv \<noteq> None"
        using m(1) vx m(2) vy m(3) vz by blast+
      then obtain xn yn zn where n: "Number xv = Some xn" "Number yv = Some yn" "Number zv = Some zn"
        by auto
      show ?thesis using le unfolding yx zy zx n by (simp split: if_splits)
    next
      assume "\<forall>r \<in> set rows. \<forall>s. get_prop r c = Some (CStr s) \<longrightarrow> Number s = None"
      then have n: "Number xv = None" "Number yv = None" "Number zv = None"
        using m(1) vx m(2) vy m(3) vz by blast+
      show ?thesis
      proof (cases "d = ''desc''")
        case True
        from le have "toLowerCase yv \<le> toLowerCase xv" "toLowerCase zv \<le> toLowerCase yv"
          unfolding yx zy n by (simp_all add: True localeCompare_nonneg)
        then have "toLowerCase zv \<le> toLowerCase xv" by simp
        then show ?thesis unfolding zx n by (simp add: True localeCompare_nonneg)
      next
        case False
        from le have "toLowerCase xv \<le> toLowerCase yv" "toLowerCase yv \<le> toLowerCase zv"
          unfolding yx zy n by (simp_all add: False localeCompare_nonneg)
        then have "toLowerCase xv \<le> toLowerCase zv" by simp
        then show ?thesis unfolding zx n by (simp add: False localeCompare_nonneg)
      qed
    qed
  qed
qed




section \<open>Properties of \<open>getColumnStats\<close>\<close>

lemma foldl_plus: "foldl (+) a xs = a + sum_list xs" for a :: rat
  by (induction xs arbitrary: a) (simp_all add: add.assoc)

lemma Math_min_Min: "xs \<noteq> [] \<Longrightarrow> Math_min xs = Min (set xs)"
proof -
  assume "xs \<noteq> []"
  then obtain y ys where xs: "xs = y # ys" by (cases xs) auto
  have "foldl min y ys = fold min ys y"
    by (simp add: foldl_conv_fold min.commute)
  then show ?thesis unfolding xs using Min.set_eq_fold [of y ys] by (simp add: Math_min_def)
qed

lemma Math_max_Max: "xs \<noteq> [] \<Longrightarrow> Math_max xs = Max (set xs)"
proof -
  assume "xs \<noteq> []"
  then obtain y ys where xs: "xs = y # ys" by (cases xs) auto
  have "foldl max y ys = fold max ys y"
    by (simp add: foldl_conv_fold max.commute)
  then show ?thesis unfolding xs using Max.set_eq_fold [of y ys] by (simp add: Math_max_def)
qed

lemma numeric_sort: "array_sort (\<lambda>a b. a - b) vals = sort vals" for vals :: "rat list"
proof -
  have "successively (placed (\<lambda>a b. a - b)) (array_sort (\<lambda>a b. a - b) vals)"
    by (rule placed_array_sort)
  then have "successively (\<le>) (array_sort (\<lambda>a b. a - b) vals)"
    by (rule successively_mono) (auto simp: placed_def)
  then have "sorted (array_sort (\<lambda>a b. a - b) vals)"
    by (simp add: successively_conv_sorted_wrt)
  moreover have "mset (array_sort (\<lambda>a b. a - b) vals) = mset vals"
    by (rule mset_array_sort)
  ultimately show ?thesis by (simp add: properties_for_sort)
qed

lemma stats_lookup:
  "foldl (\<lambda>stats column. case g column of None \<Rightarrow> stats | Some st \<Rightarrow> stats(column \<mapsto> st)) m cols c
     = (if c \<in> set cols then (case g c of None \<Rightarrow> m c | Some st \<Rightarrow> Some st) else m c)"
  by (induction cols arbitrary: m) (auto split: option.splits)

lemma getColumnStats_lookup:
  "getColumnStats rows numericColumns c =
     (if rows \<noteq> [] \<and> c \<in> set (if numericColumns \<noteq> [] then numericColumns else object_keys (hd rows))
      then stats_of (column_values rows c) else None)"
  by (simp add: getColumnStats_def Let_def stats_lookup split: option.splits)

lemma stats_of_spec:
  "stats_of vals =
     (if vals = [] then None
      else Some \<lparr>count_stat = length vals,
                 sum_stat = sum_list vals,
                 mean = of_int \<lfloor>sum_list vals / of_nat (length vals) * 100 + 1 / 2\<rfloor> / 100,
                 median = of_int \<lfloor>(if even (length vals)
                                     then (sort vals ! (length vals div 2 - 1)
                                           + sort vals ! (length vals div 2)) / 2
                                     else sort vals ! (length vals div 2)) * 100 + 1 / 2\<rfloor> / 100,
                 min_stat = Min (set vals),
                 max_stat = Max (set vals),
                 range_stat = Max (set vals) - Min (set vals)\<rparr>)"
proof (cases "vals = []")
  case True
  then show ?thesis by (simp add: stats_of_def)
next
  case False
  then have ne: "sort vals \<noteq> []" by (metis length_0_conv length_sort)
  show ?thesis
    using False
    by (simp add: stats_of_def Let_def numeric_sort foldl_plus Math_round_def
          Math_min_Min [OF ne] Math_max_Max [OF ne] even_iff_mod_2_eq_zero)
qed

lemma column_values_append:
  "column_values (xs @ ys) c = column_values xs c @ column_values ys c"
  by (simp add: column_values_def List.map_filter_def)

lemma column_values_Cons_numeric:
  "get_prop r c = Some (CStr s) \<Longrightarrow> Number s = Some x \<Longrightarrow>
     column_values (r # rows) c = x # column_values rows c"
  by (simp add: column_values_def List.map_filter_def)

lemma blank_Number: "list_all is_ws s \<Longrightarrow> Number s = Some 0"
proof -
  assume "list_all is_ws s"
  then have d: "dropWhile is_ws s = []" by (simp add: list_all_iff)
  have "trim s = []" unfolding trim_def d by simp
  then show ?thesis by (simp add: Number_def)
qed





section \<open>Blank cells\<close>

text \<open>
  C10. A cell that is the empty string, or white space only, converts to the number 0.
  \<open>getColumnStats\<close> therefore takes it as the value 0 of its column: the column has an
  entry, the 0 is counted and summed, and it lies between the least and the greatest
  value. \<open>sortCsv\<close> compares such a cell with a numeric cell \<open>n\<close> as the number 0: the
  comparator returns \<open>0 - n\<close> ascending and \<open>n - 0\<close> descending, not the result of a
  string comparison and not the \<open>1\<close> or \<open>-1\<close> of a missing value.
\<close>

theorem blank_cell_counts_as_zero:
  "list_all is_ws s \<Longrightarrow>
     Number s = Some 0
     \<and> (get_prop r c = Some (CStr s) \<longrightarrow>
          column_values (pre @ r # post) c = column_values pre c @ 0 # column_values post c
          \<and> (\<exists>st. getColumnStats (pre @ r # post) [c] c = Some st
                \<and> count_stat st = length (column_values pre c) + 1 + length (column_values post c)
                \<and> sum_stat st = sum_list (column_values pre c) + 0 + sum_list (column_values post c)
                \<and> min_stat st \<le> 0 \<and> 0 \<le> max_stat st
                \<and> range_stat st = max_stat st - min_stat st))
     \<and> (get_prop a c = Some (CStr s) \<and> get_prop b c = Some (CStr t) \<and> Number t = Some n \<longrightarrow>
          compare_rows c d a b = (if d = ''desc'' then n - 0 else 0 - n)
          \<and> compare_rows c d b a = (if d = ''desc'' then 0 - n else n - 0))"
proof -
  assume ws: "list_all is_ws s"
  have z: "Number s = Some 0" using ws by (rule blank_Number)
  have stats: "column_values (pre @ r # post) c = column_values pre c @ 0 # column_values post c
          \<and> (\<exists>st. getColumnStats (pre @ r # post) [c] c = Some st
                \<and> count_stat st = length (column_values pre c) + 1 + length (column_values post c)
                \<and> sum_stat st = sum_list (column_values pre c) + 0 + sum_list (column_values post c)
                \<and> min_stat st \<le> 0 \<and> 0 \<le> max_stat st
                \<and> range_stat st = max_stat st - min_stat st)"
    if r: "get_prop r c = Some (CStr s)"
  proof -
    define vals where "vals = column_values pre c @ 0 # column_values post c"
    have cv: "column_values (pre @ r # post) c = vals"
      unfolding vals_def column_values_append column_values_Cons_numeric [OF r z] ..
    have ne: "vals \<noteq> []" and mem: "0 \<in> set vals" by (simp_all add: vals_def)
    have lk: "getColumnStats (pre @ r # post) [c] c = stats_of vals"
      by (simp add: getColumnStats_lookup cv)
    have "Min (set vals) \<le> 0" using mem by (intro Min_le) simp_all
    moreover have "0 \<le> Max (set vals)" using mem by (intro Max_ge) simp_all
    ultimately have "\<exists>st. stats_of vals = Some st
                \<and> count_stat st = length (column_values pre c) + 1 + length (column_values post c)
                \<and> sum_stat st = sum_list (column_values pre c) + 0 + sum_list (column_values post c)
                \<and> min_stat st \<le> 0 \<and> 0 \<le> max_stat st
                \<and> range_stat st = max_stat st - min_stat st"
      unfolding stats_of_spec using ne by (simp add: vals_def)
    then show ?thesis unfolding lk cv by (simp add: vals_def)
  qed
  have cmp: "compare_rows c d a b = (if d = ''desc'' then n - 0 else 0 - n)
          \<and> compare_rows c d b a = (if d = ''desc'' then 0 - n else n - 0)"
    if "get_prop a c = Some (CStr s) \<and> get_prop b c = Some (CStr t) \<and> Number t = Some n"
    using that z by (simp add: compare_rows_def)
  from z stats cmp show ?thesis by blast
qed

theorem blank_cell_counts_as_zero_witness:
  "list_all is_ws '' ''
   \<and> Number '' '' = Some 0
   \<and> column_values blank_rows ''v'' = [0, 0, 4]
   \<and> getColumnStats blank_rows [''v''] ''v'' =
       Some \<lparr>count_stat = 3, sum_stat = 4, mean = 133 / 100, median = 0,
              min_stat = 0, max_stat = 4, range_stat = 4\<rparr>
   \<and> compare_rows ''v'' ''asc'' [(''v'', CStr '' '')] [(''v'', CStr ''4'')] = - 4
   \<and> compare_rows ''v'' ''asc'' [(''v'', CStr ''4'')] [(''v'', CStr '' '')] = 4"
proof -
  have ws: "list_all is_ws '' ''" by (simp add: is_ws_def)
  note t = blank_cell_counts_as_zero [OF ws]
  have z: "Number '' '' = Some 0" by (rule t [THEN conjunct1])
  have g: "get_prop [(''v'', CStr '' '')] ''v'' = Some (CStr '' '')
           \<and> get_prop [(''v'', CStr ''4'')] ''v'' = Some (CStr ''4'')
           \<and> Number ''4'' = Some 4"
    by code_simp
  have "compare_rows ''v'' ''asc'' [(''v'', CStr '' '')] [(''v'', CStr ''4'')]
          = (if ''asc'' = ''desc'' then 4 - 0 else 0 - 4)
        \<and> compare_rows ''v'' ''asc'' [(''v'', CStr ''4'')] [(''v'', CStr '' '')]
          = (if ''asc'' = ''desc'' then 0 - 4 else 4 - 0)"
    using t [THEN conjunct2, THEN conjunct2,
             of "[(''v'', CStr '' '')]" "''v''" "[(''v'', CStr ''4'')]" "''4''" 4 "''asc''"] g
    by (rule mp)
  then have c: "compare_rows ''v'' ''asc'' [(''v'', CStr '' '')] [(''v'', CStr ''4'')] = - 4"
    "compare_rows ''v'' ''asc'' [(''v'', CStr ''4'')] [(''v'', CStr '' '')] = 4"
    by simp_all
  have cv: "column_values blank_rows ''v'' = [0, 0, 4]" by code_simp
  have gs: "getColumnStats blank_rows [''v''] ''v'' =
       Some \<lparr>count_stat = 3, sum_stat = 4, mean = 133 / 100, median = 0,
              min_stat = 0, max_stat = 4, range_stat = 4\<rparr>"
    by code_simp
  from ws z cv gs c show ?thesis by (intro conjI)
qed

end
